theory Spec2Isabelle
  imports Main "HOL-Library.Sublist"
begin

section \<open>Text\<close>

text \<open>
  Python \<open>str\<close> values are represented by their UTF-8 encoding in \<^typ>\<open>string\<close>.
  Every operation the library applies to text (concatenation in f-strings, \<open>strip\<close>,
  \<open>split(",")\<close>, the substring test \<open>in\<close>, the emptiness test) commutes with that
  encoding, provided \<open>strip\<close> knows the encodings of the non-ASCII whitespace
  characters, which it does below.
\<close>

definition nl :: string where
  "nl = [CHR 0x0A]"

definition check_mark :: string where
  \<comment> \<open>U+2713, the mark of \<open>log_success\<close>\<close>
  "check_mark = [CHR 0xE2, CHR 0x9C, CHR 0x93]"

definition ballot_x :: string where
  \<comment> \<open>U+2717, the mark of \<open>log_error\<close>\<close>
  "ballot_x = [CHR 0xE2, CHR 0x9C, CHR 0x97]"

definition whitespace :: "string list" where
  \<comment> \<open>the characters for which \<open>str.isspace\<close> holds: U+0009..U+000D, U+001C..U+001F,
      U+0020, U+0085, U+00A0, U+1680, U+2000..U+200A, U+2028, U+2029, U+202F, U+205F,
      U+3000, each in UTF-8\<close>
  "whitespace =
     [[CHR 0x09], [CHR 0x0A], [CHR 0x0B], [CHR 0x0C], [CHR 0x0D],
      [CHR 0x1C], [CHR 0x1D], [CHR 0x1E], [CHR 0x1F], [CHR 0x20],
      [CHR 0xC2, CHR 0x85], [CHR 0xC2, CHR 0xA0],
      [CHR 0xE1, CHR 0x9A, CHR 0x80],
      [CHR 0xE2, CHR 0x80, CHR 0x80], [CHR 0xE2, CHR 0x80, CHR 0x81],
      [CHR 0xE2, CHR 0x80, CHR 0x82], [CHR 0xE2, CHR 0x80, CHR 0x83],
      [CHR 0xE2, CHR 0x80, CHR 0x84], [CHR 0xE2, CHR 0x80, CHR 0x85],
      [CHR 0xE2, CHR 0x80, CHR 0x86], [CHR 0xE2, CHR 0x80, CHR 0x87],
      [CHR 0xE2, CHR 0x80, CHR 0x88], [CHR 0xE2, CHR 0x80, CHR 0x89],
      [CHR 0xE2, CHR 0x80, CHR 0x8A],
      [CHR 0xE2, CHR 0x80, CHR 0xA8], [CHR 0xE2, CHR 0x80, CHR 0xA9],
      [CHR 0xE2, CHR 0x80, CHR 0xAF], [CHR 0xE2, CHR 0x81, CHR 0x9F],
      [CHR 0xE3, CHR 0x80, CHR 0x80]]"

function lstrip_with :: "string list \<Rightarrow> string \<Rightarrow> string" where
  "lstrip_with ws s =
     (case find (\<lambda>e. e \<noteq> [] \<and> prefix e s) ws of
        None \<Rightarrow> s
      | Some e \<Rightarrow> lstrip_with ws (drop (length e) s))"
  by pat_completeness auto
termination
proof (relation "measure (\<lambda>(ws, s). length s)")
  show "wf (measure (\<lambda>(ws, s). length s))" by simp
next
  fix ws :: "string list" and s e :: string
  assume "find (\<lambda>e. e \<noteq> [] \<and> prefix e s) ws = Some e"
  then have "e \<noteq> []" and "prefix e s"
    by (auto simp: find_Some_iff)
  then have "s \<noteq> []" by auto
  with \<open>e \<noteq> []\<close> show "((ws, drop (length e) s), (ws, s)) \<in> measure (\<lambda>(ws, s). length s)"
    by simp
qed

declare lstrip_with.simps [simp del]

definition lstrip :: "string \<Rightarrow> string" where
  "lstrip s = lstrip_with whitespace s"

definition rstrip :: "string \<Rightarrow> string" where
  "rstrip s = rev (lstrip_with (map rev whitespace) (rev s))"

definition strip :: "string \<Rightarrow> string" where
  \<comment> \<open>\<open>s.strip()\<close>\<close>
  "strip s = rstrip (lstrip s)"

fun split :: "char \<Rightarrow> string \<Rightarrow> string list" where
  \<comment> \<open>\<open>s.split(c)\<close> for a one-character separator: never the empty list\<close>
  "split c [] = [[]]"
| "split c (x # xs) =
     (if x = c then [] # split c xs
      else (case split c xs of [] \<Rightarrow> [[x]] | y # ys \<Rightarrow> (x # y) # ys))"

fun py_in :: "string \<Rightarrow> string \<Rightarrow> bool" where
  \<comment> \<open>\<open>sub in s\<close>\<close>
  "py_in sub [] = (sub = [])"
| "py_in sub (c # cs) = (prefix sub (c # cs) \<or> py_in sub cs)"

fun str_nat :: "nat \<Rightarrow> string" where
  "str_nat n =
     (if n < 10 then [''0123456789'' ! n]
      else str_nat (n div 10) @ [''0123456789'' ! (n mod 10)])"

declare str_nat.simps [simp del]

definition str_int :: "int \<Rightarrow> string" where
  \<comment> \<open>\<open>str(i)\<close>, as an f-string formats an int\<close>
  "str_int i = (if i < 0 then ''-'' @ str_nat (nat (- i)) else str_nat (nat i))"

section \<open>The process and its environment\<close>

text \<open>
  What a run of the library does to the outside is a sequence of events: a call of
  \<open>print\<close> with its argument, a call of \<open>time.sleep\<close> with its duration in
  milliseconds, and a call of \<open>subprocess.run(["osascript", "-e", script], ...)\<close> with
  the script.
\<close>

datatype event = Print string | Sleep nat | Osascript string

type_synonym trace = "event list"

text \<open>
  The outcome of \<open>subprocess.run\<close> with \<open>check=True\<close>: the interpreter exited with
  status 0 and wrote \<open>stdout\<close>; it exited with another status, which raises
  \<open>CalledProcessError\<close> carrying \<open>stderr\<close>; the call raised some other exception
  derived from \<open>Exception\<close> (an \<open>OSError\<close> when the interpreter cannot be started, a
  decoding error), given by its message; or the user interrupted the process while it
  waited.
\<close>

datatype proc_result =
    Completed string
  | CalledProcessError string
  | OtherError string
  | Interrupted

text \<open>
  The environment answers each call from the events so far, so it may change as the
  run proceeds (an application that was quit is no longer running). It also decides
  whether the user's interrupt arrives during a sleep. The interrupt is taken to arrive
  while the process is blocked, in \<open>time.sleep\<close> or waiting for the interpreter, where
  it raises \<open>KeyboardInterrupt\<close>; \<open>print\<close> always completes.

  A function of the library takes the environment and the events so far, and returns
  the events extended by its own together with its value or the exception it raised.
\<close>

record world =
  osascript :: "trace \<Rightarrow> string \<Rightarrow> proc_result"
  interrupted :: "trace \<Rightarrow> bool"

datatype exn = KeyboardInterrupt | Exception string | SystemExit int

type_synonym 'a result = "(exn + 'a) \<times> trace"

definition print_line :: "string \<Rightarrow> trace \<Rightarrow> trace" where
  "print_line s h = h @ [Print s]"

definition sleep :: "world \<Rightarrow> nat \<Rightarrow> trace \<Rightarrow> unit result" where
  "sleep w ms h =
     (if interrupted w h then (Inl KeyboardInterrupt, h @ [Sleep ms])
      else (Inr (), h @ [Sleep ms]))"

section \<open>workspace\_manager.py\<close>

definition EXCLUDED_APPS :: "string set" where
  "EXCLUDED_APPS = {''Terminal'', ''iTerm2'', ''iTerm'', ''Finder'', ''SystemUIServer''}"

definition COUNTDOWN_SECONDS :: int where
  "COUNTDOWN_SECONDS = 3"

definition log_info :: "string \<Rightarrow> trace \<Rightarrow> trace" where
  "log_info message h = print_line (''  '' @ message) h"

definition log_success :: "string \<Rightarrow> trace \<Rightarrow> trace" where
  "log_success message h = print_line (''  '' @ check_mark @ '' '' @ message) h"

definition log_error :: "string \<Rightarrow> trace \<Rightarrow> trace" where
  "log_error message h = print_line (''  '' @ ballot_x @ '' '' @ message) h"

definition run_applescript :: "world \<Rightarrow> string \<Rightarrow> trace \<Rightarrow> string option result" where
  "run_applescript w script h =
     (case osascript w h script of
        Completed out \<Rightarrow> (Inr (Some (strip out)), h @ [Osascript script])
      | CalledProcessError err \<Rightarrow>
          (Inr None, log_error (''AppleScript error: '' @ err) (h @ [Osascript script]))
      | OtherError msg \<Rightarrow> (Inl (Exception msg), h @ [Osascript script])
      | Interrupted \<Rightarrow> (Inl KeyboardInterrupt, h @ [Osascript script]))"

definition get_applescript_list_running_apps :: string where
  \<open>get_applescript_list_running_apps =
     ''tell application "System Events" to get name of every application process whose background only is false''\<close>

definition get_running_gui_apps :: "world \<Rightarrow> trace \<Rightarrow> string list result" where
  "get_running_gui_apps w h =
     (case run_applescript w get_applescript_list_running_apps h of
        (Inl e, h') \<Rightarrow> (Inl e, h')
      | (Inr result, h') \<Rightarrow>
          (case result of
             None \<Rightarrow> (Inr [], h')
           | Some r \<Rightarrow>
               if r \<noteq> [] then (Inr (map strip (split (CHR '','') r)), h')
               else (Inr [], h')))"

definition and_then :: "'a result \<Rightarrow> ('a \<Rightarrow> trace \<Rightarrow> 'b result) \<Rightarrow> 'b result" where
  \<comment> \<open>one statement after another: an exception of the first skips the second\<close>
  "and_then m f = (case m of (Inl e, h) \<Rightarrow> (Inl e, h) | (Inr x, h) \<Rightarrow> f x h)"

definition try_except :: "unit result \<Rightarrow> (string \<Rightarrow> trace \<Rightarrow> trace) \<Rightarrow> unit result" where
  \<comment> \<open>\<open>try: body except Exception as e: handler(str(e))\<close>; \<open>KeyboardInterrupt\<close> and
      \<open>SystemExit\<close> do not derive from \<open>Exception\<close> and pass through\<close>
  "try_except body handler =
     (case body of
        (Inl (Exception msg), h) \<Rightarrow> (Inr (), handler msg h)
      | (Inl e, h) \<Rightarrow> (Inl e, h)
      | (Inr u, h) \<Rightarrow> (Inr u, h))"

definition quit_script :: "string \<Rightarrow> string" where
  \<comment> \<open>the f-string of line 175\<close>
  \<open>quit_script app = ''tell application "'' @ app @ ''" to quit''\<close>

function countdown :: "world \<Rightarrow> int \<Rightarrow> trace \<Rightarrow> unit result" where
  \<comment> \<open>the loop of lines 165 to 167 over \<open>range(i, 0, -1)\<close>\<close>
  "countdown w i h =
     (if i \<le> 0 then (Inr (), h)
      else (case sleep w 1000 (print_line (str_int i @ ''...'') h) of
              (Inl e, h') \<Rightarrow> (Inl e, h')
            | (Inr u, h') \<Rightarrow> countdown w (i - 1) h'))"
  by pat_completeness auto
termination
  by (relation "measure (\<lambda>(w, i, h). nat i)") auto

declare countdown.simps [simp del]

definition close_body :: "world \<Rightarrow> string \<Rightarrow> trace \<Rightarrow> unit result" where
  \<comment> \<open>the body of the loop of lines 173 to 180\<close>
  "close_body w app h =
     try_except
       (and_then (run_applescript w (quit_script app) h)
          (\<lambda>_ h1. sleep w 200 (log_success (''Closed '' @ app) h1)))
       (\<lambda>msg. log_error (''Failed to close '' @ app @ '': '' @ msg))"

fun close_loop :: "world \<Rightarrow> string list \<Rightarrow> trace \<Rightarrow> unit result" where
  "close_loop w [] h = (Inr (), h)"
| "close_loop w (app # apps) h =
     (case close_body w app h of
        (Inl e, h') \<Rightarrow> (Inl e, h')
      | (Inr u, h') \<Rightarrow> close_loop w apps h')"

definition close_all_gui_apps :: "world \<Rightarrow> string set option \<Rightarrow> trace \<Rightarrow> unit result" where
  "close_all_gui_apps w excluded_apps h =
     (let excluded = (case excluded_apps of None \<Rightarrow> EXCLUDED_APPS | Some e \<Rightarrow> e) in
      and_then (get_running_gui_apps w (print_line ''Getting list of running GUI applications...'' h))
        (\<lambda>apps h1.
           let apps_to_close = filter (\<lambda>app. app \<notin> excluded) apps in
           if apps_to_close = [] then (Inr (), print_line ''No GUI applications to close.'' h1)
           else
             let h2 = print_line (nl @ ''Found '' @ str_int (int (length apps_to_close))
                                     @ '' applications to close:'') h1;
                 h3 = fold (\<lambda>app. log_info (''- '' @ app)) apps_to_close h2;
                 h4 = print_line (nl @ ''Starting countdown: '' @ str_int COUNTDOWN_SECONDS
                                     @ '' seconds to cancel (Ctrl+C)...'') h3
             in (case countdown w COUNTDOWN_SECONDS h4 of
                   (Inl KeyboardInterrupt, h5) \<Rightarrow>
                     (Inl (SystemExit 0), print_line (nl @ nl @ ''Cancelled by user.'') h5)
                 | (Inl e, h5) \<Rightarrow> (Inl e, h5)
                 | (Inr u, h5) \<Rightarrow>
                     and_then (close_loop w apps_to_close
                                 (print_line (nl @ ''Closing applications...'') h5))
                       (\<lambda>_ h6. and_then (sleep w 1000 h6)
                          (\<lambda>_ h7. (Inr (), print_line (nl @ ''All applications closed.'') h7))))))"

definition get_applescript_check_app_exists :: "string \<Rightarrow> string" where
  \<open>get_applescript_check_app_exists app_name =
     nl @ concat (map (\<lambda>l. l @ nl)
       [''    try'',
        ''        tell application "Finder" to get application file id of application "''
          @ app_name @ ''"'',
        ''        return "found"'',
        ''    on error'',
        ''        return "not found"'',
        ''    end try'']) @ ''    ''\<close>

definition get_applescript_maximize_window :: "string \<Rightarrow> string" where
  \<open>get_applescript_maximize_window process_name =
     nl @ concat (map (\<lambda>l. l @ nl)
       [''    tell application "System Events"'',
        ''        tell process "'' @ process_name @ ''"'',
        ''            set frontmost to true'',
        ''            delay 1'',
        ''            try'',
        ''                if exists window 1 then'',
        ''                    tell window 1'',
        ''                        -- Try fullscreen first (true maximization)'',
        ''                        try'',
        ''                            set value of attribute "AXFullScreen" to true'',
        ''                        on error'',
        ''                            -- Fallback: maximize to screen bounds'',
        ''                            tell application "Finder"'',
        ''                                set screenBounds to bounds of window of desktop'',
        ''                                set screenWidth to item 3 of screenBounds'',
        ''                                set screenHeight to item 4 of screenBounds'',
        ''                            end tell'',
        ''                            set position to {0, 0}'',
        ''                            set size to {screenWidth, screenHeight}'',
        ''                        end try'',
        ''                    end tell'',
        ''                end if'',
        ''            on error errMsg'',
        ''                -- Last resort: try to zoom the window'',
        ''                try'',
        ''                    tell window 1'',
        ''                        set value of attribute "AXZoomButton" to true'',
        ''                    end tell'',
        ''                end try'',
        ''            end try'',
        ''        end tell'',
        ''    end tell'']) @ ''    ''\<close>

definition maximize_window :: "world \<Rightarrow> string \<Rightarrow> string option \<Rightarrow> trace \<Rightarrow> unit result" where
  "maximize_window w app_name process_name h =
     (let process_name' = (case process_name of None \<Rightarrow> app_name | Some p \<Rightarrow> p) in
      and_then (run_applescript w (get_applescript_maximize_window process_name') h)
        (\<lambda>_ h1. (Inr (), h1)))"

definition activate_script :: "string \<Rightarrow> string" where
  \<comment> \<open>the f-string of line 229\<close>
  \<open>activate_script app_name = ''tell application "'' @ app_name @ ''" to activate''\<close>

definition is_found :: "string option \<Rightarrow> bool" where
  \<comment> \<open>the condition of line 217, \<open>result and "found" in result\<close>\<close>
  "is_found result = (case result of None \<Rightarrow> False | Some r \<Rightarrow> r \<noteq> [] \<and> py_in ''found'' r)"

fun check_loop ::
  "world \<Rightarrow> (string \<times> string option) list \<Rightarrow> (string \<times> string option) list \<Rightarrow> trace
     \<Rightarrow> (string \<times> string option) list result" where
  \<comment> \<open>the loop of lines 213 to 221; the third argument is \<open>installed_apps\<close>\<close>
  "check_loop w [] installed_apps h = (Inr installed_apps, h)"
| "check_loop w ((app_name, process_name) # rest) installed_apps h =
     (case run_applescript w (get_applescript_check_app_exists app_name) h of
        (Inl e, h1) \<Rightarrow> (Inl e, h1)
      | (Inr result, h1) \<Rightarrow>
          if is_found result
          then check_loop w rest (installed_apps @ [(app_name, process_name)])
                 (log_success (app_name @ '' found'') h1)
          else check_loop w rest installed_apps
                 (log_error (app_name @ '' not found (skipping)'') h1))"

definition open_body :: "world \<Rightarrow> string \<Rightarrow> string option \<Rightarrow> trace \<Rightarrow> unit result" where
  \<comment> \<open>the body of the loop of lines 225 to 240\<close>
  "open_body w app_name process_name h =
     try_except
       (and_then (run_applescript w (activate_script app_name)
                    (print_line (nl @ ''  Opening '' @ app_name @ ''...'') h))
          (\<lambda>_ h1. and_then (sleep w 2000 h1)
             (\<lambda>_ h2. and_then (maximize_window w app_name process_name
                                 (print_line (''  Maximizing '' @ app_name @ ''...'') h2))
                (\<lambda>_ h3. sleep w 500 (log_success (app_name @ '' ready'') h3)))))
       (\<lambda>msg. log_error (''Failed to open/maximize '' @ app_name @ '': '' @ msg))"

fun open_loop :: "world \<Rightarrow> (string \<times> string option) list \<Rightarrow> trace \<Rightarrow> unit result" where
  "open_loop w [] h = (Inr (), h)"
| "open_loop w ((app_name, process_name) # rest) h =
     (case open_body w app_name process_name h of
        (Inl e, h') \<Rightarrow> (Inl e, h')
      | (Inr u, h') \<Rightarrow> open_loop w rest h')"

definition open_and_maximize_apps ::
  "world \<Rightarrow> (string \<times> string option) list \<Rightarrow> trace \<Rightarrow> unit result" where
  "open_and_maximize_apps w apps_to_open h =
     and_then (check_loop w apps_to_open [] (print_line (nl @ ''Checking installed applications...'') h))
       (\<lambda>installed_apps h1.
          and_then (open_loop w installed_apps
                      (print_line (nl @ ''Opening and maximizing applications...'') h1))
            (\<lambda>_ h2. (Inr (), print_line (nl @ check_mark
                        @ '' Workflow complete! All applications opened and maximized.'') h2)))"

section \<open>chrome\_flow.py\<close>

definition APPS_TO_OPEN :: "(string \<times> string option) list" where
  "APPS_TO_OPEN = [(''Google Chrome'', Some ''Google Chrome'')]"

definition main :: "world \<Rightarrow> trace \<Rightarrow> unit result" where
  "main w h =
     (let h1 = print_line (replicate 60 (CHR ''='')) h;
          h2 = print_line ''Chrome-Only Workflow'' h1;
          h3 = print_line (replicate 60 (CHR ''='')) h2;
          h4 = print_line [] h3
      in and_then (close_all_gui_apps w None h4)
           (\<lambda>_ h5. and_then (open_and_maximize_apps w APPS_TO_OPEN h5)
              (\<lambda>_ h6. (Inr (), print_line (nl @ ''Done!'') h6))))"

section \<open>The maximize script\<close>

text \<open>
  The fallback chain of \<open>maximize_window\<close> is not Python: it is the AppleScript text that
  \<open>get_applescript_maximize_window\<close> returns, run by the interpreter in one call. Its
  control flow is embedded here. Each command of the script is a step that the system
  lets succeed or fail; an error leaves the enclosing \<open>try\<close> body and runs its
  \<open>on error\<close> handler, a \<open>try\<close> without a handler swallows the error, and an error
  outside every \<open>try\<close> ends the script with a non-zero exit status.
\<close>

datatype step =
    SetFrontmost        \<comment> \<open>\<open>set frontmost to true\<close>\<close>
  | Delay               \<comment> \<open>\<open>delay 1\<close>\<close>
  | ExistsWindow        \<comment> \<open>the test \<open>exists window 1\<close>\<close>
  | SetFullScreen       \<comment> \<open>\<open>set value of attribute "AXFullScreen" to true\<close>\<close>
  | GetScreenBounds     \<comment> \<open>\<open>set screenBounds to bounds of window of desktop\<close>\<close>
  | GetScreenWidth      \<comment> \<open>\<open>set screenWidth to item 3 of screenBounds\<close>\<close>
  | GetScreenHeight     \<comment> \<open>\<open>set screenHeight to item 4 of screenBounds\<close>\<close>
  | SetPosition         \<comment> \<open>\<open>set position to {0, 0}\<close>\<close>
  | SetSize             \<comment> \<open>\<open>set size to {screenWidth, screenHeight}\<close>\<close>
  | SetZoomButton       \<comment> \<open>\<open>set value of attribute "AXZoomButton" to true\<close>\<close>

record desktop =
  fails :: "step \<Rightarrow> bool"
  window1 :: bool   \<comment> \<open>what \<open>exists window 1\<close> answers when it does not fail\<close>

type_synonym script_log = "(step \<times> bool) list"

fun run_steps :: "desktop \<Rightarrow> step list \<Rightarrow> script_log \<Rightarrow> bool \<times> script_log" where
  \<comment> \<open>commands in sequence, up to the first error; \<open>True\<close> when none failed\<close>
  "run_steps d [] l = (True, l)"
| "run_steps d (c # cs) l =
     (if fails d c then (False, l @ [(c, False)]) else run_steps d cs (l @ [(c, True)]))"

definition maximize_try_body :: "desktop \<Rightarrow> script_log \<Rightarrow> bool \<times> script_log" where
  \<comment> \<open>the body of the outer \<open>try\<close>\<close>
  "maximize_try_body d l =
     (case run_steps d [ExistsWindow] l of
        (False, l1) \<Rightarrow> (False, l1)
      | (True, l1) \<Rightarrow>
          if window1 d then
            (case run_steps d [SetFullScreen] l1 of
               (True, l2) \<Rightarrow> (True, l2)
             | (False, l2) \<Rightarrow>
                 run_steps d [GetScreenBounds, GetScreenWidth, GetScreenHeight,
                              SetPosition, SetSize] l2)
          else (True, l1))"

definition maximize_script :: "desktop \<Rightarrow> bool \<times> script_log" where
  \<comment> \<open>the whole script; \<open>True\<close> when it ends without an uncaught error\<close>
  "maximize_script d =
     (case run_steps d [SetFrontmost, Delay] [] of
        (False, l) \<Rightarrow> (False, l)
      | (True, l) \<Rightarrow>
          (case maximize_try_body d l of
             (True, l1) \<Rightarrow> (True, l1)
           | (False, l1) \<Rightarrow> (True, snd (run_steps d [SetZoomButton] l1))))"

datatype strategy = Fullscreen | BoundsResize | Zoom

fun strategy_of :: "step \<Rightarrow> strategy option" where
  "strategy_of SetFullScreen = Some Fullscreen"
| "strategy_of GetScreenBounds = Some BoundsResize"
| "strategy_of GetScreenWidth = Some BoundsResize"
| "strategy_of GetScreenHeight = Some BoundsResize"
| "strategy_of SetPosition = Some BoundsResize"
| "strategy_of SetSize = Some BoundsResize"
| "strategy_of SetZoomButton = Some Zoom"
| "strategy_of _ = None"

fun merge_attempts :: "(strategy \<times> bool) list \<Rightarrow> (strategy \<times> bool) list" where
  \<comment> \<open>consecutive steps of one strategy are one attempt, which succeeds when all do\<close>
  "merge_attempts ((s, a) # (t, b) # r) =
     (if s = t then merge_attempts ((t, a \<and> b) # r) else (s, a) # merge_attempts ((t, b) # r))"
| "merge_attempts r = r"

definition attempts :: "script_log \<Rightarrow> (strategy \<times> bool) list" where
  \<comment> \<open>the strategies a run attempted, in the order of the run, each with its success\<close>
  "attempts l =
     merge_attempts (concat (map (\<lambda>(c, ok). case strategy_of c of None \<Rightarrow> [] | Some s \<Rightarrow> [(s, ok)]) l))"

definition fallback_chain :: "(strategy \<times> bool) list \<Rightarrow> bool" where
  \<comment> \<open>the chain in the specification's words: fullscreen, then the resize, then zoom, each
      fallback only after the failure of the one before, ending at the first success or
      after the third failure\<close>
  "fallback_chain as \<longleftrightarrow>
     as = [(Fullscreen, True)] \<or>
     as = [(Fullscreen, False), (BoundsResize, True)] \<or>
     as = [(Fullscreen, False), (BoundsResize, False), (Zoom, True)] \<or>
     as = [(Fullscreen, False), (BoundsResize, False), (Zoom, False)]"

definition interpreter :: "bool \<Rightarrow> string \<Rightarrow> string \<Rightarrow> proc_result" where
  \<comment> \<open>what \<open>subprocess.run\<close> sees of a script that ran to its end or to an uncaught error\<close>
  "interpreter ok out err = (if ok then Completed out else CalledProcessError err)"

section \<open>Observations on traces\<close>

fun scripts :: "trace \<Rightarrow> string list" where
  \<comment> \<open>the scripts handed to the interpreter, in order\<close>
  "scripts [] = []"
| "scripts (Osascript s # r) = s # scripts r"
| "scripts (_ # r) = scripts r"

fun prints :: "trace \<Rightarrow> string list" where
  \<comment> \<open>the lines printed, in order\<close>
  "prints [] = []"
| "prints (Print s # r) = s # prints r"
| "prints (_ # r) = prints r"

fun sleeps :: "trace \<Rightarrow> nat list" where
  "sleeps [] = []"
| "sleeps (Sleep n # r) = n # sleeps r"
| "sleeps (_ # r) = sleeps r"

definition uninterrupted :: "world \<Rightarrow> bool" where
  \<comment> \<open>the user never interrupts the run\<close>
  "uninterrupted w \<longleftrightarrow> (\<forall>h. \<not> interrupted w h) \<and> (\<forall>h s. osascript w h s \<noteq> Interrupted)"

section \<open>Environments of the scenarios\<close>

definition quiet :: world where
  \<comment> \<open>System Events lists Chrome, Terminal and Notes; every other script prints nothing\<close>
  "quiet = \<lparr>osascript = (\<lambda>h s. if s = get_applescript_list_running_apps
                               then Completed (''Chrome, Terminal, Notes'' @ nl)
                               else Completed []),
            interrupted = (\<lambda>h. False)\<rparr>"

definition broken :: world where
  \<comment> \<open>every script makes the interpreter exit with status 1\<close>
  "broken = \<lparr>osascript = (\<lambda>h s. CalledProcessError ''execution error''),
             interrupted = (\<lambda>h. False)\<rparr>"

definition cancelling :: world where
  \<comment> \<open>as \<open>quiet\<close>, and the user presses Ctrl+C during the second second of the countdown\<close>
  "cancelling = quiet\<lparr>interrupted := (\<lambda>h. sleeps h = [1000])\<rparr>"

definition chrome_missing :: world where
  \<comment> \<open>Finder has no Google Chrome: the check script runs into its \<open>on error\<close> branch and
      returns \<open>"not found"\<close>, which the interpreter prints\<close>
  "chrome_missing =
     \<lparr>osascript = (\<lambda>h s. if s = get_applescript_check_app_exists ''Google Chrome''
                          then Completed (''not found'' @ nl)
                          else Completed []),
      interrupted = (\<lambda>h. False)\<rparr>"

definition stubborn :: world where
  \<comment> \<open>as \<open>quiet\<close>, but quitting Chrome ends with status 1 and quitting Notes cannot start
      the interpreter\<close>
  "stubborn =
     \<lparr>osascript = (\<lambda>h s. if s = get_applescript_list_running_apps
                          then Completed (''Chrome, Terminal, Notes'' @ nl)
                          else if s = quit_script ''Chrome''
                          then CalledProcessError ''execution error: User canceled. (-128)''
                          else if s = quit_script ''Notes''
                          then OtherError ''[Errno 24] Too many open files''
                          else Completed []),
      interrupted = (\<lambda>h. False)\<rparr>"

definition no_window :: desktop where
  \<comment> \<open>every command succeeds and the process has no window\<close>
  "no_window = \<lparr>fails = (\<lambda>c. False), window1 = False\<rparr>"

definition rigid_window :: desktop where
  \<comment> \<open>the process has a window that takes neither the fullscreen attribute, nor a new
      size, nor the zoom button\<close>
  "rigid_window = \<lparr>fails = (\<lambda>c. c \<in> {SetFullScreen, SetSize, SetZoomButton}), window1 = True\<rparr>"

definition idle :: world where
  \<comment> \<open>only Finder and the terminal are running\<close>
  "idle = \<lparr>osascript = (\<lambda>h s. if s = get_applescript_list_running_apps
                              then Completed (''Finder, Terminal'' @ nl)
                              else Completed []),
           interrupted = (\<lambda>h. False)\<rparr>"

definition acme :: world where
  \<comment> \<open>two applications are running, the first named \<open>Acme, Inc\<close>\<close>
  "acme = \<lparr>osascript = (\<lambda>h s. if s = get_applescript_list_running_apps
                              then Completed (''Acme, Inc, Notes'' @ nl)
                              else Completed []),
           interrupted = (\<lambda>h. False)\<rparr>"


section \<open>Auxiliary facts\<close>

lemma py_in_sublist: "py_in sub s \<longleftrightarrow> (\<exists>ps ss. s = ps @ sub @ ss)"
proof -
  have "py_in sub s \<longleftrightarrow> sublist sub s"
    by (induction s) (auto simp: sublist_Cons_right)
  then show ?thesis by (simp add: sublist_def)
qed

lemma scripts_append [simp]: "scripts (a @ b) = scripts a @ scripts b"
  by (induction a rule: scripts.induct) simp_all

lemma sleeps_append [simp]: "sleeps (a @ b) = sleeps a @ sleeps b"
  by (induction a rule: sleeps.induct) simp_all

lemma prints_append [simp]: "prints (a @ b) = prints a @ prints b"
  by (induction a rule: prints.induct) simp_all

lemma lstrip_with_suffix: "suffix (lstrip_with ws s) s"
proof (induction ws s rule: lstrip_with.induct)
  case (1 ws s)
  show ?case
  proof (cases "find (\<lambda>e. e \<noteq> [] \<and> prefix e s) ws")
    case None
    then show ?thesis by (simp add: lstrip_with.simps)
  next
    case (Some e)
    from "1" [OF Some] have "suffix (lstrip_with ws (drop (length e) s)) (drop (length e) s)" .
    then have "suffix (lstrip_with ws (drop (length e) s)) s"
      using suffix_drop suffix_order.trans by blast
    with Some show ?thesis by (simp add: lstrip_with.simps)
  qed
qed

lemma set_lstrip_with: "set (lstrip_with ws s) \<subseteq> set s"
  using lstrip_with_suffix [of ws s] by (rule set_mono_suffix)

lemma set_strip: "set (strip s) \<subseteq> set s"
proof -
  have "set (rstrip t) \<subseteq> set t" for t
    using set_lstrip_with [of "map rev whitespace" "rev t"] by (simp add: rstrip_def)
  then have "set (strip s) \<subseteq> set (lstrip s)" by (simp add: strip_def)
  also have "\<dots> \<subseteq> set s" by (simp add: lstrip_def set_lstrip_with)
  finally show ?thesis .
qed

lemma split_not_Nil [simp]: "split c s \<noteq> []"
  by (induction s) (auto split: list.splits)

lemma split_no_separator: "x \<in> set (split c s) \<Longrightarrow> c \<notin> set x"
  by (induction s arbitrary: x) (auto split: if_splits list.splits)

lemma length_split: "length (split c s) = Suc (count_list s c)"
  by (induction s) (auto split: list.splits)

lemma fold_log_info:
  "fold (\<lambda>app. log_info (f app)) xs h = h @ map (\<lambda>app. Print (''  '' @ f app)) xs"
  by (induction xs arbitrary: h) (simp_all add: log_info_def print_line_def)

lemma scripts_map_Print [simp]: "scripts (map (\<lambda>x. Print (f x)) xs) = []"
  by (induction xs) simp_all

lemma sleeps_map_Print [simp]: "sleeps (map (\<lambda>x. Print (f x)) xs) = []"
  by (induction xs) simp_all

lemma run_applescript_trace:
  assumes "run_applescript w s h = (r, h')"
  shows "\<exists>ev. h' = h @ Osascript s # ev \<and> scripts ev = [] \<and> sleeps ev = []"
  using assms
  by (auto simp: run_applescript_def log_error_def print_line_def split: proc_result.splits)

lemma run_applescript_uninterrupted:
  assumes "uninterrupted w" and "run_applescript w s h = (r, h')"
  shows "r \<noteq> Inl KeyboardInterrupt" and "r \<noteq> Inl (SystemExit n)"
  using assms
  by (auto simp: run_applescript_def uninterrupted_def split: proc_result.splits)

lemma get_running_gui_apps_trace:
  assumes "get_running_gui_apps w h = (r, h')"
  shows "\<exists>ev. h' = h @ Osascript get_applescript_list_running_apps # ev
           \<and> scripts ev = [] \<and> sleeps ev = []"
proof -
  obtain r0 h0 where ra: "run_applescript w get_applescript_list_running_apps h = (r0, h0)"
    by (cases "run_applescript w get_applescript_list_running_apps h")
  with assms have "h' = h0"
    by (auto simp: get_running_gui_apps_def split: sum.splits option.splits if_splits)
  with run_applescript_trace [OF ra] show ?thesis by simp
qed

lemma sleep_cases:
  "sleep w ms h = (r, h') \<Longrightarrow>
     h' = h @ [Sleep ms] \<and> (r = Inr () \<or> r = Inl KeyboardInterrupt) \<and> (uninterrupted w \<longrightarrow> r = Inr ())"
  by (auto simp: sleep_def uninterrupted_def split: if_splits)

lemma countdown_trace:
  "countdown w i h = (r, h') \<Longrightarrow>
     \<exists>ev. h' = h @ ev \<and> scripts ev = [] \<and> (r = Inr () \<or> r = Inl KeyboardInterrupt)
          \<and> (uninterrupted w \<longrightarrow> r = Inr ())"
proof (induction w i h arbitrary: r h' rule: countdown.induct)
  case (1 w i h)
  show ?case
  proof (cases "i \<le> 0")
    case True
    with "1.prems" show ?thesis by (simp add: countdown.simps)
  next
    case False
    obtain r1 h1 where s: "sleep w 1000 (print_line (str_int i @ ''...'') h) = (r1, h1)"
      by (cases "sleep w 1000 (print_line (str_int i @ ''...'') h)")
    note sc = sleep_cases [OF s]
    show ?thesis
    proof (cases r1)
      case (Inl e)
      with False s "1.prems" have "r = r1" "h' = h1" by (simp_all add: countdown.simps)
      with sc Inl show ?thesis by (auto simp: print_line_def)
    next
      case (Inr u)
      with False s "1.prems" have "countdown w (i - 1) h1 = (r, h')"
        by (simp add: countdown.simps)
      from "1.IH" [OF False s [symmetric] Inr this] sc show ?thesis
        by (auto simp: print_line_def)
    qed
  qed
qed

lemma close_body_trace:
  assumes "close_body w app h = (r, h')"
  shows "\<exists>ev. h' = h @ Osascript (quit_script app) # ev \<and> scripts ev = []
           \<and> (r = Inr () \<or> r = Inl KeyboardInterrupt) \<and> (uninterrupted w \<longrightarrow> r = Inr ())"
  using assms
  by (auto simp: close_body_def try_except_def and_then_def run_applescript_def sleep_def
        log_success_def log_error_def print_line_def uninterrupted_def
      split: proc_result.splits if_splits)

lemma close_loop_trace:
  "close_loop w apps h = (r, h') \<Longrightarrow>
     \<exists>ev k. h' = h @ ev \<and> scripts ev = map quit_script (take k apps)
          \<and> (r = Inr () \<or> r = Inl KeyboardInterrupt)
          \<and> (r = Inr () \<longrightarrow> scripts ev = map quit_script apps)
          \<and> (uninterrupted w \<longrightarrow> r = Inr ())"
proof (induction apps arbitrary: h r h')
  case Nil
  then show ?case by auto
next
  case (Cons app apps)
  obtain r1 h1 where b: "close_body w app h = (r1, h1)"
    by (cases "close_body w app h")
  from close_body_trace [OF b] obtain ev1 where ev1:
    "h1 = h @ Osascript (quit_script app) # ev1" "scripts ev1 = []"
    "r1 = Inr () \<or> r1 = Inl KeyboardInterrupt" "uninterrupted w \<longrightarrow> r1 = Inr ()"
    by blast
  show ?case
  proof (cases r1)
    case (Inl e)
    with b Cons.prems have "r = r1" "h' = h1" by simp_all
    with ev1 Inl have "h' = h @ (Osascript (quit_script app) # ev1)"
      "scripts (Osascript (quit_script app) # ev1) = map quit_script (take 1 (app # apps))"
      "r = Inl KeyboardInterrupt" "\<not> uninterrupted w"
      by auto
    then show ?thesis by blast
  next
    case (Inr u)
    with b Cons.prems have "close_loop w apps h1 = (r, h')" by simp
    from Cons.IH [OF this] obtain ev k where ev:
      "h' = h1 @ ev" "scripts ev = map quit_script (take k apps)"
      "r = Inr () \<or> r = Inl KeyboardInterrupt"
      "r = Inr () \<longrightarrow> scripts ev = map quit_script apps"
      "uninterrupted w \<longrightarrow> r = Inr ()"
      by blast
    let ?ev = "Osascript (quit_script app) # ev1 @ ev"
    from ev ev1 have "h' = h @ ?ev"
      "scripts ?ev = map quit_script (take (Suc k) (app # apps))"
      "r = Inr () \<longrightarrow> scripts ?ev = map quit_script (app # apps)"
      by auto
    with ev(3,5) show ?thesis by blast
  qed
qed

lemma quit_script_inject [simp]: "quit_script a = quit_script b \<longleftrightarrow> a = b"
  by (simp add: quit_script_def)

lemma quit_script_not_list [simp]: "quit_script a \<noteq> get_applescript_list_running_apps"
proof
  assume "quit_script a = get_applescript_list_running_apps"
  then have "last (quit_script a) = last get_applescript_list_running_apps" by simp
  then show False by (simp add: quit_script_def get_applescript_list_running_apps_def)
qed

lemma close_all_gui_apps_unfold:
  assumes "get_running_gui_apps w (h @ [Print ''Getting list of running GUI applications...'']) = (Inr R, h1)"
    and "E = (case excluded_apps of None \<Rightarrow> EXCLUDED_APPS | Some e \<Rightarrow> e)"
    and "tc = filter (\<lambda>app. app \<notin> E) R"
  shows "close_all_gui_apps w excluded_apps h =
     (if tc = [] then (Inr (), h1 @ [Print ''No GUI applications to close.''])
      else (case countdown w COUNTDOWN_SECONDS
                   (h1 @ Print (nl @ ''Found '' @ str_int (int (length tc)) @ '' applications to close:'')
                       # map (\<lambda>app. Print (''  '' @ ''- '' @ app)) tc
                       @ [Print (nl @ ''Starting countdown: '' @ str_int COUNTDOWN_SECONDS
                                    @ '' seconds to cancel (Ctrl+C)...'')]) of
              (Inl KeyboardInterrupt, h5) \<Rightarrow>
                (Inl (SystemExit 0), h5 @ [Print (nl @ nl @ ''Cancelled by user.'')])
            | (Inl e, h5) \<Rightarrow> (Inl e, h5)
            | (Inr u, h5) \<Rightarrow>
                and_then (close_loop w tc (h5 @ [Print (nl @ ''Closing applications...'')]))
                  (\<lambda>_ h6. and_then (sleep w 1000 h6)
                     (\<lambda>_ h7. (Inr (), h7 @ [Print (nl @ ''All applications closed.'')])))))"
  using assms
  by (simp add: close_all_gui_apps_def and_then_def Let_def print_line_def fold_log_info
           split: prod.split sum.split exn.split)

lemma close_loop_append:
  "close_loop w (xs @ ys) h =
     (case close_loop w xs h of (Inl e, h') \<Rightarrow> (Inl e, h') | (Inr u, h') \<Rightarrow> close_loop w ys h')"
  by (induction xs arbitrary: h) (auto split: prod.splits sum.splits)

lemma close_body_cases:
  assumes "uninterrupted w"
  shows "\<exists>logs. close_body w app h = (Inr (), h @ Osascript (quit_script app) # logs)
     \<and> (case osascript w h (quit_script app) of
          Completed out \<Rightarrow> logs = [Print (''  '' @ check_mark @ '' Closed '' @ app), Sleep 200]
        | CalledProcessError err \<Rightarrow>
            logs = [Print (''  '' @ ballot_x @ '' AppleScript error: '' @ err),
                    Print (''  '' @ check_mark @ '' Closed '' @ app), Sleep 200]
        | OtherError msg \<Rightarrow>
            logs = [Print (''  '' @ ballot_x @ '' Failed to close '' @ app @ '': '' @ msg)]
        | Interrupted \<Rightarrow> False)"
proof (cases "osascript w h (quit_script app)")
  case (Completed out)
  with assms show ?thesis
    by (simp add: close_body_def try_except_def and_then_def run_applescript_def sleep_def
        log_success_def print_line_def uninterrupted_def)
next
  case (CalledProcessError err)
  with assms show ?thesis
    by (simp add: close_body_def try_except_def and_then_def run_applescript_def sleep_def
        log_success_def log_error_def print_line_def uninterrupted_def)
next
  case (OtherError msg)
  with assms show ?thesis
    by (simp add: close_body_def try_except_def and_then_def run_applescript_def
        log_error_def print_line_def)
next
  case Interrupted
  with assms show ?thesis by (simp add: uninterrupted_def)
qed

lemma main_exits_with_close:
  assumes "close_all_gui_apps w None
             (h @ [Print (replicate 60 (CHR ''='')), Print ''Chrome-Only Workflow'',
                   Print (replicate 60 (CHR ''='')), Print []]) = (Inl e, h')"
  shows "main w h = (Inl e, h')"
  using assms by (simp add: main_def Let_def print_line_def and_then_def)

lemma countdown_default:
  assumes "uninterrupted w"
  shows "countdown w COUNTDOWN_SECONDS h =
           (Inr (), h @ [Print ''3...'', Sleep 1000, Print ''2...'', Sleep 1000,
                         Print ''1...'', Sleep 1000])"
proof -
  have s: "sleep w ms h' = (Inr (), h' @ [Sleep ms])" for ms h'
    using assms by (simp add: sleep_def uninterrupted_def)
  have "countdown w 0 h' = (Inr (), h')" for h'
    by (simp add: countdown.simps)
  then have "countdown w 1 h' = (Inr (), h' @ [Print ''1...'', Sleep 1000])" for h'
    by (subst countdown.simps) (simp add: s print_line_def str_int_def str_nat.simps)
  then have "countdown w 2 h' = (Inr (), h' @ [Print ''2...'', Sleep 1000, Print ''1...'', Sleep 1000])" for h'
    by (subst countdown.simps) (simp add: s print_line_def str_int_def str_nat.simps)
  then show ?thesis
    unfolding COUNTDOWN_SECONDS_def
    by (subst countdown.simps) (simp add: s print_line_def str_int_def str_nat.simps)
qed

lemma strip_listing:
  "strip ''Chrome, Terminal, Notes\<newline>'' = ''Chrome, Terminal, Notes''"
  "strip ''Finder, Terminal\<newline>'' = ''Finder, Terminal''"
  "strip ''Acme, Inc, Notes\<newline>'' = ''Acme, Inc, Notes''"
  "strip ''not found\<newline>'' = ''not found''"
  "strip [] = []"
  by (simp_all add: strip_def lstrip_def rstrip_def whitespace_def lstrip_with.simps)

lemma strip_names:
  "strip ''Chrome'' = ''Chrome''" "strip '' Terminal'' = ''Terminal''" "strip '' Notes'' = ''Notes''"
  "strip ''Finder'' = ''Finder''" "strip ''Acme'' = ''Acme''" "strip '' Inc'' = ''Inc''"
  by (simp_all add: strip_def lstrip_def rstrip_def whitespace_def lstrip_with.simps)

lemma quiet_listing:
  "get_running_gui_apps quiet h
     = (Inr [''Chrome'', ''Terminal'', ''Notes''], h @ [Osascript get_applescript_list_running_apps])"
  by (simp add: get_running_gui_apps_def run_applescript_def quiet_def nl_def strip_listing strip_names)

lemma uninterrupted_quiet: "uninterrupted quiet"
  by (simp add: uninterrupted_def quiet_def)

lemma idle_listing:
  "get_running_gui_apps idle h
     = (Inr [''Finder'', ''Terminal''], h @ [Osascript get_applescript_list_running_apps])"
  by (simp add: get_running_gui_apps_def run_applescript_def idle_def nl_def strip_listing strip_names)

lemma uninterrupted_stubborn: "uninterrupted stubborn"
  by (simp add: uninterrupted_def stubborn_def)

lemma stubborn_answers:
  "osascript stubborn h (quit_script ''Chrome'')
     = CalledProcessError ''execution error: User canceled. (-128)''"
  "osascript stubborn h (quit_script ''Notes'') = OtherError ''[Errno 24] Too many open files''"
  by (simp_all add: stubborn_def quit_script_def get_applescript_list_running_apps_def)

lemma cancelling_listing:
  "get_running_gui_apps cancelling h
     = (Inr [''Chrome'', ''Terminal'', ''Notes''], h @ [Osascript get_applescript_list_running_apps])"
  by (simp add: get_running_gui_apps_def run_applescript_def cancelling_def quiet_def nl_def
        strip_listing strip_names)

lemma cancelling_countdown:
  assumes "sleeps h = []"
  shows "countdown cancelling COUNTDOWN_SECONDS h
     = (Inl KeyboardInterrupt, h @ [Print ''3...'', Sleep 1000, Print ''2...'', Sleep 1000])"
proof -
  have "countdown cancelling 2 (h @ [Print ''3...'', Sleep 1000])
     = (Inl KeyboardInterrupt, h @ [Print ''3...'', Sleep 1000, Print ''2...'', Sleep 1000])"
    using assms
    by (subst countdown.simps)
       (simp add: sleep_def cancelling_def print_line_def str_int_def str_nat.simps)
  then show ?thesis
    using assms unfolding COUNTDOWN_SECONDS_def
    by (subst countdown.simps)
       (simp add: sleep_def cancelling_def print_line_def str_int_def str_nat.simps)
qed

lemma cancel_during_countdown:
  assumes "get_running_gui_apps w (h @ [Print ''Getting list of running GUI applications...'']) = (Inr R, h1)"
    and "E = (case excluded_apps of None \<Rightarrow> EXCLUDED_APPS | Some e \<Rightarrow> e)"
    and "tc = filter (\<lambda>app. app \<notin> E) R"
    and "tc \<noteq> []"
    and "countdown w COUNTDOWN_SECONDS
           (h1 @ Print (nl @ ''Found '' @ str_int (int (length tc)) @ '' applications to close:'')
               # map (\<lambda>app. Print (''  '' @ ''- '' @ app)) tc
               @ [Print (nl @ ''Starting countdown: '' @ str_int COUNTDOWN_SECONDS
                            @ '' seconds to cancel (Ctrl+C)...'')])
         = (Inl KeyboardInterrupt, h2)"
  shows "close_all_gui_apps w excluded_apps h
           = (Inl (SystemExit 0), h2 @ [Print (nl @ nl @ ''Cancelled by user.'')])
       \<and> (\<exists>ev. h2 = h @ ev \<and> scripts ev = [get_applescript_list_running_apps])"
proof
  show "close_all_gui_apps w excluded_apps h
           = (Inl (SystemExit 0), h2 @ [Print (nl @ nl @ ''Cancelled by user.'')])"
    using close_all_gui_apps_unfold [OF assms(1,2,3)] assms(4,5) by simp
  from get_running_gui_apps_trace [OF assms(1)] obtain ev0 where ev0:
    "h1 = h @ Print ''Getting list of running GUI applications...''
            # Osascript get_applescript_list_running_apps # ev0"
    "scripts ev0 = []"
    by auto
  from countdown_trace [OF assms(5)] obtain evc where evc:
    "h2 = (h1 @ Print (nl @ ''Found '' @ str_int (int (length tc)) @ '' applications to close:'')
               # map (\<lambda>app. Print (''  '' @ ''- '' @ app)) tc
               @ [Print (nl @ ''Starting countdown: '' @ str_int COUNTDOWN_SECONDS
                            @ '' seconds to cancel (Ctrl+C)...'')]) @ evc"
    "scripts evc = []"
    by blast
  show "\<exists>ev. h2 = h @ ev \<and> scripts ev = [get_applescript_list_running_apps]"
  proof (intro exI conjI)
    show "h2 = h @ (Print ''Getting list of running GUI applications...''
            # Osascript get_applescript_list_running_apps # ev0
            @ Print (nl @ ''Found '' @ str_int (int (length tc)) @ '' applications to close:'')
               # map (\<lambda>app. Print (''  '' @ ''- '' @ app)) tc
               @ [Print (nl @ ''Starting countdown: '' @ str_int COUNTDOWN_SECONDS
                            @ '' seconds to cancel (Ctrl+C)...'')] @ evc)"
      using evc(1) ev0(1) by simp
    show "scripts (Print ''Getting list of running GUI applications...''
            # Osascript get_applescript_list_running_apps # ev0
            @ Print (nl @ ''Found '' @ str_int (int (length tc)) @ '' applications to close:'')
               # map (\<lambda>app. Print (''  '' @ ''- '' @ app)) tc
               @ [Print (nl @ ''Starting countdown: '' @ str_int COUNTDOWN_SECONDS
                            @ '' seconds to cancel (Ctrl+C)...'')] @ evc)
          = [get_applescript_list_running_apps]"
      using evc(2) ev0(2) by simp
  qed
qed

lemma maximize_window_completed:
  assumes "osascript w h (get_applescript_maximize_window
             (case process_name of None \<Rightarrow> app_name | Some p \<Rightarrow> p)) = Completed out"
  shows "maximize_window w app_name process_name h
           = (Inr (), h @ [Osascript (get_applescript_maximize_window
                 (case process_name of None \<Rightarrow> app_name | Some p \<Rightarrow> p))])"
  using assms by (simp add: maximize_window_def and_then_def run_applescript_def)

lemma activate_not_check [simp]: "activate_script a \<noteq> get_applescript_check_app_exists b"
proof
  assume "activate_script a = get_applescript_check_app_exists b"
  then have "hd (activate_script a) = hd (get_applescript_check_app_exists b)" by simp
  then show False
    by (simp add: activate_script_def get_applescript_check_app_exists_def nl_def)
qed

lemma maximize_not_check [simp]:
  "get_applescript_maximize_window p \<noteq> get_applescript_check_app_exists b"
proof
  assume "get_applescript_maximize_window p = get_applescript_check_app_exists b"
  then have "take 7 (get_applescript_maximize_window p) = take 7 (get_applescript_check_app_exists b)"
    by simp
  then show False
    by (simp add: get_applescript_maximize_window_def get_applescript_check_app_exists_def nl_def)
qed





lemma stubborn_listing:
  "get_running_gui_apps stubborn h
     = (Inr [''Chrome'', ''Terminal'', ''Notes''], h @ [Osascript get_applescript_list_running_apps])"
  by (simp add: get_running_gui_apps_def run_applescript_def stubborn_def nl_def
        strip_listing strip_names)

lemma stubborn_close_loop:
  "close_loop stubborn [''Chrome'', ''Notes''] h
     = (Inr (),
        h @ [Osascript (quit_script ''Chrome''),
             Print (''  '' @ ballot_x @ '' AppleScript error: execution error: User canceled. (-128)''),
             Print (''  '' @ check_mark @ '' Closed Chrome''),
             Sleep 200,
             Osascript (quit_script ''Notes''),
             Print (''  '' @ ballot_x @ '' Failed to close Notes: [Errno 24] Too many open files'')])"
proof -
  have ni: "\<not> interrupted stubborn h'" for h'
    by (simp add: stubborn_def)
  show ?thesis
    by (simp add: close_body_def try_except_def and_then_def run_applescript_def sleep_def
          stubborn_answers ni log_success_def log_error_def print_line_def)
qed

lemma close_loop_continues:
  assumes "uninterrupted w"
  shows "\<exists>ev. close_loop w apps h = (Inr (), h @ ev) \<and> scripts ev = map quit_script apps"
proof -
  obtain r h' where l: "close_loop w apps h = (r, h')" by (cases "close_loop w apps h")
  from close_loop_trace [OF l] assms obtain ev where
    "h' = h @ ev" "r = Inr ()" "scripts ev = map quit_script apps"
    by blast
  with l show ?thesis by blast
qed

section \<open>Enumeration\<close>

text \<open>
  C7. When the interpreter exits with a non-zero status on the listing script,
  \<open>get_running_gui_apps\<close> returns the empty list, the only thing it prints is the error
  line of \<open>run_applescript\<close> with the captured diagnostic, and no exception reaches
  the caller: the result is a value, not an exception.
\<close>

theorem get_running_gui_apps_call_fails:
  assumes "osascript w h get_applescript_list_running_apps = CalledProcessError err"
  shows "get_running_gui_apps w h =
           (Inr [], h @ [Osascript get_applescript_list_running_apps,
                         Print (''  '' @ ballot_x @ '' AppleScript error: '' @ err)])"
  using assms
  by (simp add: get_running_gui_apps_def run_applescript_def log_error_def print_line_def)

theorem get_running_gui_apps_call_fails_witness:
  "osascript broken [] get_applescript_list_running_apps = CalledProcessError ''execution error''
   \<and> get_running_gui_apps broken [] =
       (Inr [], [Osascript get_applescript_list_running_apps,
                 Print (''  '' @ ballot_x @ '' AppleScript error: execution error'')])"
  using get_running_gui_apps_call_fails [of broken "[]" "''execution error''"]
  by (simp add: broken_def)

text \<open>
  C10. \<open>get_running_gui_apps\<close> returns the empty list when the interpreter exits with a
  non-zero status, and also when it exits with status 0 and its output, stripped, is
  empty. Otherwise it returns the pieces of the stripped output between commas, each
  stripped, in the order of the output: no entry contains a comma, and there is one
  entry more than there are commas, so a name with a comma in it comes back as several
  entries.
\<close>

theorem get_running_gui_apps_tokens:
  "(osascript w h get_applescript_list_running_apps = CalledProcessError err
      \<longrightarrow> fst (get_running_gui_apps w h) = Inr [])
   \<and> (osascript w h get_applescript_list_running_apps = Completed out
      \<longrightarrow> get_running_gui_apps w h
            = (Inr (if strip out = [] then [] else map strip (split (CHR '','') (strip out))),
               h @ [Osascript get_applescript_list_running_apps])
          \<and> (\<forall>apps. fst (get_running_gui_apps w h) = Inr apps
                \<longrightarrow> (\<forall>app \<in> set apps. CHR '','' \<notin> set app)
                  \<and> (strip out \<noteq> [] \<longrightarrow> length apps = Suc (count_list (strip out) (CHR '','')))))"
proof (intro conjI impI allI ballI)
  assume "osascript w h get_applescript_list_running_apps = CalledProcessError err"
  then show "fst (get_running_gui_apps w h) = Inr []"
    by (simp add: get_running_gui_apps_def run_applescript_def)
next
  assume c: "osascript w h get_applescript_list_running_apps = Completed out"
  then show eq: "get_running_gui_apps w h
            = (Inr (if strip out = [] then [] else map strip (split (CHR '','') (strip out))),
               h @ [Osascript get_applescript_list_running_apps])"
    by (simp add: get_running_gui_apps_def run_applescript_def)
  fix apps
  assume a: "fst (get_running_gui_apps w h) = Inr apps"
  show "length apps = Suc (count_list (strip out) (CHR '',''))" if "strip out \<noteq> []"
    using that a eq by (auto simp: length_split)
  fix app
  assume "app \<in> set apps"
  with a eq obtain t where "t \<in> set (split (CHR '','') (strip out))" "app = strip t"
    by (auto split: if_splits)
  then show "CHR '','' \<notin> set app"
    using set_strip [of t] split_no_separator [of t] by auto
qed

theorem get_running_gui_apps_tokens_witness:
  "osascript acme [] get_applescript_list_running_apps = Completed (''Acme, Inc, Notes'' @ nl)
   \<and> get_running_gui_apps acme [] = (Inr [''Acme'', ''Inc'', ''Notes''],
                                     [Osascript get_applescript_list_running_apps])
   \<and> osascript chrome_missing [] get_applescript_list_running_apps = Completed []
   \<and> get_running_gui_apps chrome_missing [] = (Inr [], [Osascript get_applescript_list_running_apps])
   \<and> osascript broken [] get_applescript_list_running_apps = CalledProcessError ''execution error''
   \<and> fst (get_running_gui_apps broken []) = Inr []"
proof -
  have a: "osascript acme [] get_applescript_list_running_apps = Completed (''Acme, Inc, Notes'' @ nl)"
    by (simp add: acme_def)
  have c: "osascript chrome_missing [] get_applescript_list_running_apps = Completed []"
    by (simp add: chrome_missing_def get_applescript_list_running_apps_def
          get_applescript_check_app_exists_def nl_def)
  have b: "osascript broken [] get_applescript_list_running_apps = CalledProcessError ''execution error''"
    by (simp add: broken_def)
  from get_running_gui_apps_tokens [of acme "[]" _ "''Acme, Inc, Notes'' @ nl"] a
  have 1: "get_running_gui_apps acme [] = (Inr [''Acme'', ''Inc'', ''Notes''],
                                     [Osascript get_applescript_list_running_apps])"
    by (simp add: nl_def strip_listing strip_names)
  from get_running_gui_apps_tokens [of chrome_missing "[]" _ "[]"] c
  have 2: "get_running_gui_apps chrome_missing [] = (Inr [], [Osascript get_applescript_list_running_apps])"
    by (simp add: strip_listing)
  from get_running_gui_apps_tokens [of broken "[]" "''execution error''"] b
  have 3: "fst (get_running_gui_apps broken []) = Inr []"
    by simp
  from a b c 1 2 3 show ?thesis by simp
qed

section \<open>Closing\<close>

text \<open>
  C6. When no name of the enumerated list \<open>R\<close> is outside the excluded set,
  \<open>close_all_gui_apps\<close> prints that there is nothing to close and returns normally. The
  events of the call are those of the enumeration followed by that one line: there is no
  sleep, hence no countdown, and the listing script is the only script run.
\<close>

theorem close_all_gui_apps_nothing_to_close:
  assumes "get_running_gui_apps w (h @ [Print ''Getting list of running GUI applications...'']) = (Inr R, h1)"
    and "E = (case excluded_apps of None \<Rightarrow> EXCLUDED_APPS | Some e \<Rightarrow> e)"
    and "filter (\<lambda>app. app \<notin> E) R = []"
  shows "close_all_gui_apps w excluded_apps h = (Inr (), h1 @ [Print ''No GUI applications to close.''])
       \<and> (\<exists>ev. h1 = h @ Print ''Getting list of running GUI applications...''
                       # Osascript get_applescript_list_running_apps # ev
               \<and> scripts ev = [] \<and> sleeps ev = [])"
proof
  show "close_all_gui_apps w excluded_apps h = (Inr (), h1 @ [Print ''No GUI applications to close.''])"
    using close_all_gui_apps_unfold [OF assms(1,2) refl] assms(3) by simp
  from get_running_gui_apps_trace [OF assms(1)]
  show "\<exists>ev. h1 = h @ Print ''Getting list of running GUI applications...''
                       # Osascript get_applescript_list_running_apps # ev
               \<and> scripts ev = [] \<and> sleeps ev = []"
    by simp
qed

theorem close_all_gui_apps_nothing_to_close_witness:
  "get_running_gui_apps idle ([] @ [Print ''Getting list of running GUI applications...''])
     = (Inr [''Finder'', ''Terminal''],
        [Print ''Getting list of running GUI applications...'',
         Osascript get_applescript_list_running_apps])
   \<and> filter (\<lambda>app. app \<notin> EXCLUDED_APPS) [''Finder'', ''Terminal''] = []
   \<and> close_all_gui_apps idle None []
       = (Inr (), [Print ''Getting list of running GUI applications...'',
                   Osascript get_applescript_list_running_apps,
                   Print ''No GUI applications to close.''])"
proof -
  have g: "get_running_gui_apps idle ([] @ [Print ''Getting list of running GUI applications...''])
     = (Inr [''Finder'', ''Terminal''],
        [Print ''Getting list of running GUI applications...'',
         Osascript get_applescript_list_running_apps])"
    by (simp add: idle_listing)
  have e: "EXCLUDED_APPS = (case None of None \<Rightarrow> EXCLUDED_APPS | Some e \<Rightarrow> e)"
    by simp
  have f: "filter (\<lambda>app. app \<notin> EXCLUDED_APPS) [''Finder'', ''Terminal''] = []"
    by (simp add: EXCLUDED_APPS_def)
  from close_all_gui_apps_nothing_to_close [OF g e f] g f show ?thesis by simp
qed

text \<open>
  C2. Let \<open>R\<close> be the list that the enumeration returned and \<open>E\<close> the excluded set (the
  default one when none is given). In every run of \<open>close_all_gui_apps\<close> the scripts
  handed to the interpreter are the listing script followed by the quit scripts of an
  initial part of \<open>R\<close> without \<open>E\<close>, in the order of \<open>R\<close>; no quit script of a name
  in \<open>E\<close> is among them; when the call returns normally they are the quit scripts of
  all of \<open>R\<close> without \<open>E\<close>; and the call does return normally whenever the user does not
  interrupt it.
\<close>

theorem close_all_gui_apps_quits_exactly:
  assumes "get_running_gui_apps w (h @ [Print ''Getting list of running GUI applications...'']) = (Inr R, h1)"
    and "E = (case excluded_apps of None \<Rightarrow> EXCLUDED_APPS | Some e \<Rightarrow> e)"
  shows "\<exists>r ev k. close_all_gui_apps w excluded_apps h = (r, h @ ev)
          \<and> scripts ev = get_applescript_list_running_apps
                           # map quit_script (take k (filter (\<lambda>app. app \<notin> E) R))
          \<and> (\<forall>e \<in> E. quit_script e \<notin> set (scripts ev))
          \<and> (r = Inr () \<longrightarrow> scripts ev = get_applescript_list_running_apps
                                  # map quit_script (filter (\<lambda>app. app \<notin> E) R))
          \<and> (uninterrupted w \<longrightarrow> r = Inr ())"
proof -
  define tc where "tc = filter (\<lambda>app. app \<notin> E) R"
  define run where "run = close_all_gui_apps w excluded_apps h"
  define ls where "ls = get_applescript_list_running_apps"
  note unf = close_all_gui_apps_unfold [OF assms(1,2) tc_def, folded run_def]
  have safe: "quit_script e \<notin> set (ls # map quit_script (take k tc))" if "e \<in> E" for k e
  proof -
    have "e \<notin> set (take k tc)"
      using that set_take_subset [of k tc] by (auto simp: tc_def)
    then show ?thesis by (auto simp: ls_def)
  qed
  have I: "\<exists>r ev k. run = (r, h @ ev)
          \<and> scripts ev = ls # map quit_script (take k tc)
          \<and> (\<forall>e \<in> E. quit_script e \<notin> set (scripts ev))
          \<and> (r = Inr () \<longrightarrow> scripts ev = ls # map quit_script tc)
          \<and> (uninterrupted w \<longrightarrow> r = Inr ())"
    if "run = (r, h @ ev)" "scripts ev = ls # map quit_script (take k tc)"
       "r = Inr () \<longrightarrow> k = length tc" "uninterrupted w \<longrightarrow> r = Inr ()" for r ev k
  proof (intro exI conjI)
    show "run = (r, h @ ev)" by (rule that(1))
    show "scripts ev = ls # map quit_script (take k tc)" by (rule that(2))
    show "\<forall>e \<in> E. quit_script e \<notin> set (scripts ev)" unfolding that(2) using safe by blast
    show "r = Inr () \<longrightarrow> scripts ev = ls # map quit_script tc" using that(2,3) by simp
    show "uninterrupted w \<longrightarrow> r = Inr ()" by (rule that(4))
  qed
  from get_running_gui_apps_trace [OF assms(1)] obtain ev0 where ev0:
    "h1 = h @ Print ''Getting list of running GUI applications...'' # Osascript ls # ev0"
    "scripts ev0 = []"
    unfolding ls_def by auto
  define evg where "evg = Print ''Getting list of running GUI applications...'' # Osascript ls # ev0"
  have evg: "h1 = h @ evg" "scripts evg = [ls]"
    using ev0 by (simp_all add: evg_def)
  have ?thesis if "tc = []"
  proof -
    from unf that evg have "run = (Inr (), h @ (evg @ [Print ''No GUI applications to close.'']))"
      by simp
    moreover have "scripts (evg @ [Print ''No GUI applications to close.'']) = ls # map quit_script (take 0 tc)"
      using evg by simp
    ultimately have "\<exists>r ev k. run = (r, h @ ev)
          \<and> scripts ev = ls # map quit_script (take k tc)
          \<and> (\<forall>e \<in> E. quit_script e \<notin> set (scripts ev))
          \<and> (r = Inr () \<longrightarrow> scripts ev = ls # map quit_script tc)
          \<and> (uninterrupted w \<longrightarrow> r = Inr ())"
      by (rule I) (simp_all add: that)
    then show ?thesis unfolding run_def ls_def tc_def .
  qed
  moreover have ?thesis if ne: "tc \<noteq> []"
  proof -
    define hc where "hc = h1 @ Print (nl @ ''Found '' @ str_int (int (length tc)) @ '' applications to close:'')
                       # map (\<lambda>app. Print (''  '' @ ''- '' @ app)) tc
                       @ [Print (nl @ ''Starting countdown: '' @ str_int COUNTDOWN_SECONDS
                                    @ '' seconds to cancel (Ctrl+C)...'')]"
    note unf' = unf [folded hc_def]
    obtain rc h5 where c: "countdown w COUNTDOWN_SECONDS hc = (rc, h5)"
      by (cases "countdown w COUNTDOWN_SECONDS hc")
    from countdown_trace [OF c] obtain evc where evc:
      "h5 = hc @ evc" "scripts evc = []" "rc = Inr () \<or> rc = Inl KeyboardInterrupt"
      "uninterrupted w \<longrightarrow> rc = Inr ()"
      by blast
    obtain evp where evp: "h5 = h @ evp" "scripts evp = [ls]"
    proof
      show "h5 = h @ (evg @ Print (nl @ ''Found '' @ str_int (int (length tc)) @ '' applications to close:'')
                       # map (\<lambda>app. Print (''  '' @ ''- '' @ app)) tc
                       @ [Print (nl @ ''Starting countdown: '' @ str_int COUNTDOWN_SECONDS
                                    @ '' seconds to cancel (Ctrl+C)...'')] @ evc)"
        using evc(1) evg(1) by (simp add: hc_def)
      show "scripts (evg @ Print (nl @ ''Found '' @ str_int (int (length tc)) @ '' applications to close:'')
                       # map (\<lambda>app. Print (''  '' @ ''- '' @ app)) tc
                       @ [Print (nl @ ''Starting countdown: '' @ str_int COUNTDOWN_SECONDS
                                    @ '' seconds to cancel (Ctrl+C)...'')] @ evc) = [ls]"
        using evc(2) evg(2) by simp
    qed
    have J: ?thesis if "run = (r, h @ ev)" "scripts ev = ls # map quit_script (take k tc)"
       "r = Inr () \<longrightarrow> k = length tc" "uninterrupted w \<longrightarrow> r = Inr ()" for r ev k
      using I [OF that] unfolding run_def ls_def tc_def .
    show ?thesis
    proof (cases "rc = Inr ()")
      case False
      with evc have rc: "rc = Inl KeyboardInterrupt" "\<not> uninterrupted w" by auto
      with unf' c ne have "run = (Inl (SystemExit 0), h5 @ [Print (nl @ nl @ ''Cancelled by user.'')])"
        by simp
      with evp have "run = (Inl (SystemExit 0), h @ (evp @ [Print (nl @ nl @ ''Cancelled by user.'')]))"
        by simp
      moreover have "scripts (evp @ [Print (nl @ nl @ ''Cancelled by user.'')]) = ls # map quit_script (take 0 tc)"
        using evp by simp
      ultimately show ?thesis by (rule J) (simp_all add: rc)
    next
      case True
      define hl where "hl = h5 @ [Print (nl @ ''Closing applications...'')]"
      obtain rl h6 where l: "close_loop w tc hl = (rl, h6)"
        by (cases "close_loop w tc hl")
      from close_loop_trace [OF l] obtain evl k where evl:
        "h6 = hl @ evl"
        "scripts evl = map quit_script (take k tc)"
        "rl = Inr () \<or> rl = Inl KeyboardInterrupt"
        "rl = Inr () \<longrightarrow> scripts evl = map quit_script tc"
        "uninterrupted w \<longrightarrow> rl = Inr ()"
        by blast
      obtain rs h7 where s: "sleep w 1000 h6 = (rs, h7)" by (cases "sleep w 1000 h6")
      note sc = sleep_cases [OF s]
      from unf' c True ne l s have res: "run =
           (case rl of Inl e \<Rightarrow> (Inl e, h6)
            | Inr u \<Rightarrow> (case rs of Inl e \<Rightarrow> (Inl e, h7)
                        | Inr u \<Rightarrow> (Inr (), h7 @ [Print (nl @ ''All applications closed.'')])))"
        by (simp add: and_then_def hl_def split: sum.splits)
      define evq where "evq = evp @ [Print (nl @ ''Closing applications...'')] @ evl"
      have evq: "h6 = h @ evq" "scripts evq = ls # map quit_script (take k tc)"
        using evl(1,2) evp by (simp_all add: evq_def hl_def)
      show ?thesis
      proof (cases rl)
        case (Inl e)
        with res evq have "run = (Inl e, h @ evq)" by simp
        then show ?thesis using evq(2)
        proof (rule J)
          show "Inl e = Inr () \<longrightarrow> k = length tc" by simp
          show "uninterrupted w \<longrightarrow> Inl e = Inr ()" using evl(5) Inl by simp
        qed
      next
        case (Inr u)
        with evl evq have all: "scripts evq = ls # map quit_script (take (length tc) tc)" by simp
        show ?thesis
        proof (cases rs)
          case (Inl e)
          with Inr res sc evq(1) have "run = (Inl e, h @ (evq @ [Sleep 1000]))" by simp
          moreover have "scripts (evq @ [Sleep 1000]) = ls # map quit_script (take (length tc) tc)"
            using all by simp
          ultimately show ?thesis
          proof (rule J)
            show "Inl e = Inr () \<longrightarrow> length tc = length tc" by simp
            show "uninterrupted w \<longrightarrow> Inl e = Inr ()" using sc Inl by simp
          qed
        next
          case Inr2: (Inr u2)
          with Inr res sc evq(1) have "run = (Inr (), h @ (evq @ [Sleep 1000, Print (nl @ ''All applications closed.'')]))"
            by simp
          moreover have "scripts (evq @ [Sleep 1000, Print (nl @ ''All applications closed.'')])
              = ls # map quit_script (take (length tc) tc)"
            using all by simp
          ultimately show ?thesis by (rule J) simp_all
        qed
      qed
    qed
  qed
  ultimately show ?thesis by blast
qed

theorem close_all_gui_apps_quits_exactly_witness:
  "get_running_gui_apps quiet ([] @ [Print ''Getting list of running GUI applications...''])
     = (Inr [''Chrome'', ''Terminal'', ''Notes''],
        [Print ''Getting list of running GUI applications...'',
         Osascript get_applescript_list_running_apps])
   \<and> fst (close_all_gui_apps quiet (Some {''Terminal''}) []) = Inr ()
   \<and> scripts (snd (close_all_gui_apps quiet (Some {''Terminal''}) []))
       = [get_applescript_list_running_apps, quit_script ''Chrome'', quit_script ''Notes'']
   \<and> quit_script ''Terminal'' \<notin> set (scripts (snd (close_all_gui_apps quiet (Some {''Terminal''}) [])))"
proof -
  have g: "get_running_gui_apps quiet ([] @ [Print ''Getting list of running GUI applications...''])
     = (Inr [''Chrome'', ''Terminal'', ''Notes''],
        [Print ''Getting list of running GUI applications...'',
         Osascript get_applescript_list_running_apps])"
    by (simp add: quiet_listing)
  have e: "{''Terminal''} = (case Some {''Terminal''} of None \<Rightarrow> EXCLUDED_APPS | Some e \<Rightarrow> e)"
    by simp
  from close_all_gui_apps_quits_exactly [OF g e] obtain r ev k where *:
    "close_all_gui_apps quiet (Some {''Terminal''}) [] = (r, [] @ ev)"
    "\<forall>e \<in> {''Terminal''}. quit_script e \<notin> set (scripts ev)"
    "r = Inr () \<longrightarrow> scripts ev = get_applescript_list_running_apps
        # map quit_script (filter (\<lambda>app. app \<notin> {''Terminal''}) [''Chrome'', ''Terminal'', ''Notes''])"
    "uninterrupted quiet \<longrightarrow> r = Inr ()"
    by blast
  from *(4) uninterrupted_quiet have r: "r = Inr ()" by simp
  with *(3) have "scripts ev = [get_applescript_list_running_apps, quit_script ''Chrome'', quit_script ''Notes'']"
    by simp
  with g r *(1,2) show ?thesis by simp
qed

text \<open>
  C3, at the input where the code departs from it. Chrome and Notes are to be closed.
  The quit script of Chrome makes the interpreter exit with a non-zero status:
  \<open>run_applescript\<close> catches the \<open>CalledProcessError\<close>, prints its error line and
  returns \<open>None\<close>, and the loop, which does not look at what it returns, goes on to
  print the success line \<open>Closed Chrome\<close>. The failed request is logged as a success for
  that application; the line \<open>Failed to close\<close> of the loop's handler comes only for
  an exception that \<open>run_applescript\<close> does not catch, as for Notes here. The other half
  of the claim holds: after either failure the loop goes on, and every quit script is
  run (\<open>close_loop_continues\<close>).
\<close>

theorem failed_quit_is_logged_closed:
  "close_all_gui_apps stubborn (Some {''Terminal''}) []
     = (Inr (),
        [Print ''Getting list of running GUI applications...'',
         Osascript get_applescript_list_running_apps,
         Print (nl @ ''Found 2 applications to close:''),
         Print ''  - Chrome'', Print ''  - Notes'',
         Print (nl @ ''Starting countdown: 3 seconds to cancel (Ctrl+C)...''),
         Print ''3...'', Sleep 1000, Print ''2...'', Sleep 1000, Print ''1...'', Sleep 1000,
         Print (nl @ ''Closing applications...''),
         Osascript (quit_script ''Chrome''),
         Print (''  '' @ ballot_x @ '' AppleScript error: execution error: User canceled. (-128)''),
         Print (''  '' @ check_mark @ '' Closed Chrome''),
         Sleep 200,
         Osascript (quit_script ''Notes''),
         Print (''  '' @ ballot_x @ '' Failed to close Notes: [Errno 24] Too many open files''),
         Sleep 1000,
         Print (nl @ ''All applications closed.'')])"
proof -
  have g: "get_running_gui_apps stubborn ([] @ [Print ''Getting list of running GUI applications...''])
     = (Inr [''Chrome'', ''Terminal'', ''Notes''],
        [Print ''Getting list of running GUI applications...'',
         Osascript get_applescript_list_running_apps])"
    by (simp add: stubborn_listing)
  have e: "{''Terminal''} = (case Some {''Terminal''} of None \<Rightarrow> EXCLUDED_APPS | Some e \<Rightarrow> e)"
    by simp
  have f: "[''Chrome'', ''Notes''] = filter (\<lambda>app. app \<notin> {''Terminal''}) [''Chrome'', ''Terminal'', ''Notes'']"
    by simp
  have ni: "\<not> interrupted stubborn h'" for h'
    by (simp add: stubborn_def)
  show ?thesis
    by (simp add: close_all_gui_apps_unfold [OF g e f]
          countdown_default [OF uninterrupted_stubborn, unfolded COUNTDOWN_SECONDS_def]
          stubborn_close_loop and_then_def sleep_def ni
          str_int_def str_nat.simps COUNTDOWN_SECONDS_def del: close_loop.simps)
qed

text \<open>
  C4. If the countdown of \<open>close_all_gui_apps\<close> ends with the user's interrupt, the call
  prints that it was cancelled and raises \<open>SystemExit\<close> with status 0; the only script
  run in the whole call is the listing script, so no quit request was issued; and
  \<open>main\<close> of the workflow ends right there with the same \<open>SystemExit\<close>, without opening
  anything.
\<close>

theorem cancel_during_countdown_exits:
  assumes "get_running_gui_apps w (h @ [Print ''Getting list of running GUI applications...'']) = (Inr R, h1)"
    and "E = (case excluded_apps of None \<Rightarrow> EXCLUDED_APPS | Some e \<Rightarrow> e)"
    and "tc = filter (\<lambda>app. app \<notin> E) R"
    and "tc \<noteq> []"
    and "countdown w COUNTDOWN_SECONDS
           (h1 @ Print (nl @ ''Found '' @ str_int (int (length tc)) @ '' applications to close:'')
               # map (\<lambda>app. Print (''  '' @ ''- '' @ app)) tc
               @ [Print (nl @ ''Starting countdown: '' @ str_int COUNTDOWN_SECONDS
                            @ '' seconds to cancel (Ctrl+C)...'')])
         = (Inl KeyboardInterrupt, h2)"
  shows "close_all_gui_apps w excluded_apps h
           = (Inl (SystemExit 0), h2 @ [Print (nl @ nl @ ''Cancelled by user.'')])
       \<and> (\<exists>ev. h2 = h @ ev \<and> scripts ev = [get_applescript_list_running_apps])
       \<and> (\<forall>h0. excluded_apps = None
              \<and> h = h0 @ [Print (replicate 60 (CHR ''='')), Print ''Chrome-Only Workflow'',
                          Print (replicate 60 (CHR ''='')), Print []]
            \<longrightarrow> main w h0 = (Inl (SystemExit 0), h2 @ [Print (nl @ nl @ ''Cancelled by user.'')]))"
proof -
  from cancel_during_countdown [OF assms]
  have a: "close_all_gui_apps w excluded_apps h
           = (Inl (SystemExit 0), h2 @ [Print (nl @ nl @ ''Cancelled by user.'')])"
    and b: "\<exists>ev. h2 = h @ ev \<and> scripts ev = [get_applescript_list_running_apps]"
    by blast+
  have "main w h0 = (Inl (SystemExit 0), h2 @ [Print (nl @ nl @ ''Cancelled by user.'')])"
    if "excluded_apps = None"
      "h = h0 @ [Print (replicate 60 (CHR ''='')), Print ''Chrome-Only Workflow'',
                 Print (replicate 60 (CHR ''='')), Print []]" for h0
    using a that by (intro main_exits_with_close) simp
  with a b show ?thesis by blast
qed

theorem cancel_during_countdown_exits_witness:
  "get_running_gui_apps cancelling ([] @ [Print ''Getting list of running GUI applications...''])
     = (Inr [''Chrome'', ''Terminal'', ''Notes''],
        [Print ''Getting list of running GUI applications...'',
         Osascript get_applescript_list_running_apps])
   \<and> filter (\<lambda>app. app \<notin> EXCLUDED_APPS) [''Chrome'', ''Terminal'', ''Notes''] = [''Chrome'', ''Notes'']
   \<and> close_all_gui_apps cancelling None []
       = (Inl (SystemExit 0),
          [Print ''Getting list of running GUI applications...'',
           Osascript get_applescript_list_running_apps,
           Print (nl @ ''Found 2 applications to close:''),
           Print ''  - Chrome'', Print ''  - Notes'',
           Print (nl @ ''Starting countdown: 3 seconds to cancel (Ctrl+C)...''),
           Print ''3...'', Sleep 1000, Print ''2...'', Sleep 1000,
           Print (nl @ nl @ ''Cancelled by user.'')])"
proof -
  have g: "get_running_gui_apps cancelling ([] @ [Print ''Getting list of running GUI applications...''])
     = (Inr [''Chrome'', ''Terminal'', ''Notes''],
        [Print ''Getting list of running GUI applications...'',
         Osascript get_applescript_list_running_apps])"
    by (simp add: cancelling_listing)
  have e: "EXCLUDED_APPS = (case None of None \<Rightarrow> EXCLUDED_APPS | Some e \<Rightarrow> e)"
    by simp
  have f: "[''Chrome'', ''Notes''] = filter (\<lambda>app. app \<notin> EXCLUDED_APPS) [''Chrome'', ''Terminal'', ''Notes'']"
    by (simp add: EXCLUDED_APPS_def)
  have n: "[''Chrome'', ''Notes''] \<noteq> []" by simp
  have c: "countdown cancelling COUNTDOWN_SECONDS
           ([Print ''Getting list of running GUI applications...'',
             Osascript get_applescript_list_running_apps]
            @ Print (nl @ ''Found '' @ str_int (int (length [''Chrome'', ''Notes''])) @ '' applications to close:'')
               # map (\<lambda>app. Print (''  '' @ ''- '' @ app)) [''Chrome'', ''Notes'']
               @ [Print (nl @ ''Starting countdown: '' @ str_int COUNTDOWN_SECONDS
                            @ '' seconds to cancel (Ctrl+C)...'')])
         = (Inl KeyboardInterrupt,
            [Print ''Getting list of running GUI applications...'',
             Osascript get_applescript_list_running_apps,
             Print (nl @ ''Found 2 applications to close:''),
             Print ''  - Chrome'', Print ''  - Notes'',
             Print (nl @ ''Starting countdown: 3 seconds to cancel (Ctrl+C)...''),
             Print ''3...'', Sleep 1000, Print ''2...'', Sleep 1000])"
    by (subst cancelling_countdown)
       (simp_all add: str_int_def str_nat.simps COUNTDOWN_SECONDS_def)
  from cancel_during_countdown_exits [OF g e f n c] g f show ?thesis by simp
qed

text \<open>
  C8. \<open>COUNTDOWN_SECONDS\<close> is 3: an uninterrupted countdown prints \<open>3...\<close>, \<open>2...\<close>,
  \<open>1...\<close>, each followed by a sleep of one second, and nothing else. When the enumeration
  returns Chrome, Terminal and Notes and the excluded set is Terminal alone, the call
  announces two applications, Chrome and Notes, runs that countdown, and only then runs
  the quit scripts of Chrome and of Notes, in this order.
\<close>

theorem countdown_three_ticks_then_quits:
  assumes "uninterrupted w"
  shows "countdown w COUNTDOWN_SECONDS h =
           (Inr (), h @ [Print ''3...'', Sleep 1000, Print ''2...'', Sleep 1000,
                         Print ''1...'', Sleep 1000])
       \<and> (get_running_gui_apps w (h @ [Print ''Getting list of running GUI applications...''])
             = (Inr [''Chrome'', ''Terminal'', ''Notes''], h1)
          \<longrightarrow> (\<exists>ev. close_all_gui_apps w (Some {''Terminal''}) h
                  = (Inr (),
                     h1 @ [Print (nl @ ''Found 2 applications to close:''),
                           Print ''  - Chrome'', Print ''  - Notes'',
                           Print (nl @ ''Starting countdown: 3 seconds to cancel (Ctrl+C)...''),
                           Print ''3...'', Sleep 1000, Print ''2...'', Sleep 1000,
                           Print ''1...'', Sleep 1000,
                           Print (nl @ ''Closing applications...'')]
                        @ ev @ [Sleep 1000, Print (nl @ ''All applications closed.'')])
                \<and> scripts ev = [quit_script ''Chrome'', quit_script ''Notes'']))"
proof (intro conjI impI)
  show "countdown w COUNTDOWN_SECONDS h =
           (Inr (), h @ [Print ''3...'', Sleep 1000, Print ''2...'', Sleep 1000,
                         Print ''1...'', Sleep 1000])"
    by (rule countdown_default [OF assms])
next
  assume g: "get_running_gui_apps w (h @ [Print ''Getting list of running GUI applications...''])
             = (Inr [''Chrome'', ''Terminal'', ''Notes''], h1)"
  have e: "{''Terminal''} = (case Some {''Terminal''} of None \<Rightarrow> EXCLUDED_APPS | Some e \<Rightarrow> e)"
    by simp
  have f: "[''Chrome'', ''Notes''] = filter (\<lambda>app. app \<notin> {''Terminal''}) [''Chrome'', ''Terminal'', ''Notes'']"
    by simp
  define hl where "hl = h1 @ [Print (nl @ ''Found 2 applications to close:''),
                           Print ''  - Chrome'', Print ''  - Notes'',
                           Print (nl @ ''Starting countdown: 3 seconds to cancel (Ctrl+C)...''),
                           Print ''3...'', Sleep 1000, Print ''2...'', Sleep 1000,
                           Print ''1...'', Sleep 1000,
                           Print (nl @ ''Closing applications...'')]"
  obtain rl h6 where l: "close_loop w [''Chrome'', ''Notes''] hl = (rl, h6)"
    by (cases "close_loop w [''Chrome'', ''Notes''] hl")
  from close_loop_trace [OF l] assms obtain ev where ev:
    "h6 = hl @ ev" "rl = Inr ()" "scripts ev = map quit_script [''Chrome'', ''Notes'']"
    by blast
  have s: "sleep w 1000 h6 = (Inr (), h6 @ [Sleep 1000])"
    using assms by (simp add: sleep_def uninterrupted_def)
  have "close_all_gui_apps w (Some {''Terminal''}) h
          = and_then (close_loop w [''Chrome'', ''Notes''] hl)
              (\<lambda>_ h6. and_then (sleep w 1000 h6)
                 (\<lambda>_ h7. (Inr (), h7 @ [Print (nl @ ''All applications closed.'')])))"
    by (simp add: close_all_gui_apps_unfold [OF g e f]
          countdown_default [OF assms, unfolded COUNTDOWN_SECONDS_def]
          hl_def str_int_def str_nat.simps COUNTDOWN_SECONDS_def del: close_loop.simps)
  then have "close_all_gui_apps w (Some {''Terminal''}) h
          = (Inr (), hl @ ev @ [Sleep 1000, Print (nl @ ''All applications closed.'')])"
    using l ev(1,2) s by (simp add: and_then_def del: close_loop.simps)
  with ev(3) show "\<exists>ev. close_all_gui_apps w (Some {''Terminal''}) h
                  = (Inr (),
                     h1 @ [Print (nl @ ''Found 2 applications to close:''),
                           Print ''  - Chrome'', Print ''  - Notes'',
                           Print (nl @ ''Starting countdown: 3 seconds to cancel (Ctrl+C)...''),
                           Print ''3...'', Sleep 1000, Print ''2...'', Sleep 1000,
                           Print ''1...'', Sleep 1000,
                           Print (nl @ ''Closing applications...'')]
                        @ ev @ [Sleep 1000, Print (nl @ ''All applications closed.'')])
                \<and> scripts ev = [quit_script ''Chrome'', quit_script ''Notes'']"
    unfolding hl_def by (intro exI [of _ ev]) simp
qed

theorem countdown_three_ticks_then_quits_witness:
  "uninterrupted quiet
   \<and> countdown quiet COUNTDOWN_SECONDS []
       = (Inr (), [Print ''3...'', Sleep 1000, Print ''2...'', Sleep 1000, Print ''1...'', Sleep 1000])
   \<and> get_running_gui_apps quiet ([] @ [Print ''Getting list of running GUI applications...''])
       = (Inr [''Chrome'', ''Terminal'', ''Notes''],
          [Print ''Getting list of running GUI applications...'',
           Osascript get_applescript_list_running_apps])
   \<and> fst (close_all_gui_apps quiet (Some {''Terminal''}) []) = Inr ()
   \<and> scripts (snd (close_all_gui_apps quiet (Some {''Terminal''}) []))
       = [get_applescript_list_running_apps, quit_script ''Chrome'', quit_script ''Notes'']
   \<and> prints (snd (close_all_gui_apps quiet (Some {''Terminal''}) []))
       = [''Getting list of running GUI applications...'',
          nl @ ''Found 2 applications to close:'', ''  - Chrome'', ''  - Notes'',
          nl @ ''Starting countdown: 3 seconds to cancel (Ctrl+C)...'',
          ''3...'', ''2...'', ''1...'', nl @ ''Closing applications...'']
         @ prints (drop 13 (snd (close_all_gui_apps quiet (Some {''Terminal''}) [])))"
proof -
  have g: "get_running_gui_apps quiet ([] @ [Print ''Getting list of running GUI applications...''])
       = (Inr [''Chrome'', ''Terminal'', ''Notes''],
          [Print ''Getting list of running GUI applications...'',
           Osascript get_applescript_list_running_apps])"
    by (simp add: quiet_listing)
  from countdown_three_ticks_then_quits [OF uninterrupted_quiet,
      where h = "[]" and ?h1.0 = "[Print ''Getting list of running GUI applications...'',
           Osascript get_applescript_list_running_apps]"] g
  obtain ev where
    "countdown quiet COUNTDOWN_SECONDS []
       = (Inr (), [Print ''3...'', Sleep 1000, Print ''2...'', Sleep 1000, Print ''1...'', Sleep 1000])"
    "close_all_gui_apps quiet (Some {''Terminal''}) []
       = (Inr (),
          [Print ''Getting list of running GUI applications...'',
           Osascript get_applescript_list_running_apps]
          @ [Print (nl @ ''Found 2 applications to close:''),
             Print ''  - Chrome'', Print ''  - Notes'',
             Print (nl @ ''Starting countdown: 3 seconds to cancel (Ctrl+C)...''),
             Print ''3...'', Sleep 1000, Print ''2...'', Sleep 1000,
             Print ''1...'', Sleep 1000,
             Print (nl @ ''Closing applications...'')]
          @ ev @ [Sleep 1000, Print (nl @ ''All applications closed.'')])"
    "scripts ev = [quit_script ''Chrome'', quit_script ''Notes'']"
    by auto
  with g uninterrupted_quiet show ?thesis by simp
qed

section \<open>Opening\<close>



text \<open>
  C1, at the input where the code departs from it. Google Chrome is not installed: the
  check script takes its \<open>on error\<close> branch and returns \<open>"not found"\<close>. The text
  \<open>not found\<close> contains \<open>found\<close>, so the test of line 217 holds, the application is
  logged as found and put into \<open>installed_apps\<close>, and the second loop activates and
  maximizes it. The line \<open>not found (skipping)\<close> is never printed.
\<close>

theorem not_found_is_taken_for_found:
  "osascript chrome_missing [Print (nl @ ''Checking installed applications...'')]
       (get_applescript_check_app_exists ''Google Chrome'') = Completed (''not found'' @ nl)
   \<and> is_found (Some (strip (''not found'' @ nl)))
   \<and> open_and_maximize_apps chrome_missing APPS_TO_OPEN []
       = (Inr (),
          [Print (nl @ ''Checking installed applications...''),
           Osascript (get_applescript_check_app_exists ''Google Chrome''),
           Print (''  '' @ check_mark @ '' Google Chrome found''),
           Print (nl @ ''Opening and maximizing applications...''),
           Print (nl @ ''  Opening Google Chrome...''),
           Osascript (activate_script ''Google Chrome''),
           Sleep 2000,
           Print ''  Maximizing Google Chrome...'',
           Osascript (get_applescript_maximize_window ''Google Chrome''),
           Print (''  '' @ check_mark @ '' Google Chrome ready''),
           Sleep 500,
           Print (nl @ check_mark @ '' Workflow complete! All applications opened and maximized.'')])"
proof -
  have a: "osascript chrome_missing h (get_applescript_check_app_exists ''Google Chrome'')
             = Completed ''not found\<newline>''" for h
    by (simp add: chrome_missing_def nl_def)
  have b: "osascript chrome_missing h (activate_script ''Google Chrome'') = Completed []" for h
    by (simp add: chrome_missing_def activate_script_def get_applescript_check_app_exists_def nl_def)
  have c: "osascript chrome_missing h (get_applescript_maximize_window ''Google Chrome'') = Completed []" for h
    by (simp add: chrome_missing_def get_applescript_maximize_window_def
          get_applescript_check_app_exists_def nl_def)
  have f: "is_found (Some ''not found'')"
    by (simp add: is_found_def)
  have i: "\<not> interrupted chrome_missing h" for h
    by (simp add: chrome_missing_def)
  show ?thesis
    using f
    by (simp add: a b c i open_and_maximize_apps_def APPS_TO_OPEN_def and_then_def open_body_def
          try_except_def maximize_window_def run_applescript_def sleep_def log_success_def
          print_line_def strip_listing nl_def)
qed

section \<open>Maximizing\<close>

text \<open>
  C5 as it is stated fails where the process has no window: the script tests
  \<open>exists window 1\<close> before anything else, and when the answer is no it attempts no
  strategy at all, not even the fullscreen attribute.
\<close>

theorem no_window_no_attempt:
  "attempts (snd (maximize_script no_window)) = []
   \<and> \<not> fallback_chain (attempts (snd (maximize_script no_window)))"
  by (simp add: fallback_chain_def attempts_def maximize_script_def maximize_try_body_def
        no_window_def)

text \<open>
  C5, amended. Suppose the script gets to its window test: \<open>set frontmost\<close>,
  \<open>delay 1\<close> and the test \<open>exists window 1\<close> succeed. When the test answers yes, the
  strategies attempted are the fullscreen attribute, then the resize to the screen
  bounds, then the zoom button, in this order, each fallback only after the failure of
  the one before and none after the first success; fullscreen alone is attempted exactly
  when it succeeds, and zoom fails only after the other two have failed. When the test
  answers no, no strategy is attempted. In every such run, also when all three
  strategies fail, the script ends without an uncaught error, so the interpreter exits
  with status 0, and \<open>maximize_window\<close> returns normally with the interpreter call as its
  only event: it prints nothing.
\<close>

theorem maximize_fallback_chain:
  assumes "\<not> fails d SetFrontmost" and "\<not> fails d Delay" and "\<not> fails d ExistsWindow"
    and "osascript w h (get_applescript_maximize_window
             (case process_name of None \<Rightarrow> app_name | Some p \<Rightarrow> p))
           = interpreter (fst (maximize_script d)) out err"
  shows "(window1 d \<longrightarrow>
            fallback_chain (attempts (snd (maximize_script d)))
          \<and> (attempts (snd (maximize_script d)) = [(Fullscreen, True)] \<longleftrightarrow> \<not> fails d SetFullScreen)
          \<and> ((Zoom, False) \<in> set (attempts (snd (maximize_script d))) \<longleftrightarrow>
               attempts (snd (maximize_script d))
                 = [(Fullscreen, False), (BoundsResize, False), (Zoom, False)]))
       \<and> (\<not> window1 d \<longrightarrow> attempts (snd (maximize_script d)) = [])
       \<and> fst (maximize_script d)
       \<and> maximize_window w app_name process_name h
           = (Inr (), h @ [Osascript (get_applescript_maximize_window
                 (case process_name of None \<Rightarrow> app_name | Some p \<Rightarrow> p))])"
proof -
  have ok: "fst (maximize_script d)"
    using assms(1,2) by (simp add: maximize_script_def split: prod.splits bool.splits)
  have chain: "fallback_chain (attempts (snd (maximize_script d)))
       \<and> (attempts (snd (maximize_script d)) = [(Fullscreen, True)] \<longleftrightarrow> \<not> fails d SetFullScreen)
       \<and> ((Zoom, False) \<in> set (attempts (snd (maximize_script d))) \<longleftrightarrow>
            attempts (snd (maximize_script d))
              = [(Fullscreen, False), (BoundsResize, False), (Zoom, False)])"
    if "window1 d"
    using assms(1-3) that
    by (simp add: fallback_chain_def attempts_def maximize_script_def maximize_try_body_def)
  have none: "attempts (snd (maximize_script d)) = []" if "\<not> window1 d"
    using assms(1-3) that
    by (simp add: attempts_def maximize_script_def maximize_try_body_def)
  from assms(4) ok have "osascript w h (get_applescript_maximize_window
             (case process_name of None \<Rightarrow> app_name | Some p \<Rightarrow> p)) = Completed out"
    by (simp add: interpreter_def)
  from maximize_window_completed [OF this] chain none ok show ?thesis by simp
qed

theorem maximize_fallback_chain_witness:
  "\<not> fails rigid_window SetFrontmost \<and> \<not> fails rigid_window Delay
   \<and> \<not> fails rigid_window ExistsWindow \<and> window1 rigid_window
   \<and> osascript quiet [] (get_applescript_maximize_window ''Notes'')
       = interpreter (fst (maximize_script rigid_window)) [] ''unused''
   \<and> attempts (snd (maximize_script rigid_window))
       = [(Fullscreen, False), (BoundsResize, False), (Zoom, False)]
   \<and> maximize_window quiet ''Notes'' None []
       = (Inr (), [Osascript (get_applescript_maximize_window ''Notes'')])
   \<and> \<not> fails no_window SetFrontmost \<and> \<not> fails no_window Delay
   \<and> \<not> fails no_window ExistsWindow \<and> \<not> window1 no_window
   \<and> osascript quiet [] (get_applescript_maximize_window ''Notes'')
       = interpreter (fst (maximize_script no_window)) [] ''unused''
   \<and> attempts (snd (maximize_script no_window)) = []"
proof -
  have f: "\<not> fails rigid_window SetFrontmost" "\<not> fails rigid_window Delay"
    "\<not> fails rigid_window ExistsWindow"
    and wr: "window1 rigid_window"
    by (simp_all add: rigid_window_def)
  have n: "\<not> fails no_window SetFrontmost" "\<not> fails no_window Delay"
    "\<not> fails no_window ExistsWindow"
    and wn: "\<not> window1 no_window"
    by (simp_all add: no_window_def)
  have q: "osascript quiet [] (get_applescript_maximize_window ''Notes'') = Completed []"
    by (simp add: quiet_def get_applescript_maximize_window_def
          get_applescript_list_running_apps_def nl_def)
  have okr: "fst (maximize_script rigid_window)"
    by (simp add: maximize_script_def maximize_try_body_def rigid_window_def)
  have okn: "fst (maximize_script no_window)"
    by (simp add: maximize_script_def maximize_try_body_def no_window_def)
  have o: "osascript quiet [] (get_applescript_maximize_window
             (case None of None \<Rightarrow> ''Notes'' | Some p \<Rightarrow> p))
           = interpreter (fst (maximize_script rigid_window)) [] ''unused''"
    by (simp add: q okr interpreter_def)
  have on: "osascript quiet [] (get_applescript_maximize_window
             (case None of None \<Rightarrow> ''Notes'' | Some p \<Rightarrow> p))
           = interpreter (fst (maximize_script no_window)) [] ''unused''"
    by (simp add: q okn interpreter_def)
  have z: "(Zoom, False) \<in> set (attempts (snd (maximize_script rigid_window)))"
    by (simp add: attempts_def maximize_script_def maximize_try_body_def rigid_window_def)
  from maximize_fallback_chain [OF f o] wr z
  have 1: "attempts (snd (maximize_script rigid_window))
       = [(Fullscreen, False), (BoundsResize, False), (Zoom, False)]"
    "maximize_window quiet ''Notes'' None []
       = (Inr (), [Osascript (get_applescript_maximize_window ''Notes'')])"
    by simp_all
  from maximize_fallback_chain [OF n on] wn
  have 2: "attempts (snd (maximize_script no_window)) = []"
    by simp
  from 1 2 f wr n wn o on show ?thesis by simp
qed

end
